theory Spec2Isabelle
  imports Main "HOL-Library.Char_ord" "HOL-Library.List_Lexorder" "HOL-Library.Multiset"
begin

section \<open>Study time tracker: the form (main.py) and its store (db.py)\<close>

text \<open>
  A Python \<open>str\<close> is modelled as a HOL \<open>string\<close> holding the UTF-8 encoding of the text:
  an ASCII character is one \<open>char\<close>, the placeholder dash (U+2014) is three. Equality,
  removal of an ASCII character and SQLite's byte-wise comparison of TEXT values are the
  same on the encoding as on the text. The digits and the whitespace recognised below are
  the ASCII ones; Python also knows digits and whitespace beyond ASCII, so what is said
  about arbitrary typed text is said about ASCII text.

  Python's \<open>int\<close> is HOL's \<open>int\<close>. An exception is a value of \<open>pyerr\<close>, returned
  as \<open>Inl\<close>.
\<close>

datatype pyerr = ValueError | IndexError

subsection \<open>Text primitives of the Python library\<close>

definition is_space :: "char \<Rightarrow> bool" where
  \<comment> \<open>\<open>str.isspace\<close> on ASCII: tab, LF, VT, FF, CR, the separators 0x1C..0x1F, space.\<close>
  "is_space c = (let n = (of_char c :: nat) in (9 \<le> n \<and> n \<le> 13) \<or> (28 \<le> n \<and> n \<le> 32))"

definition strip :: "string \<Rightarrow> string" where
  \<comment> \<open>\<open>str.strip()\<close>: whitespace removed at both ends.\<close>
  "strip s = rev (dropWhile is_space (rev (dropWhile is_space s)))"

fun split_from :: "string \<Rightarrow> string \<Rightarrow> string list" where
  \<comment> \<open>the loop of \<open>str.split()\<close>: \<open>cur\<close> is the word being read.\<close>
  "split_from cur [] = (if cur = [] then [] else [cur])"
| "split_from cur (c # cs) =
     (if is_space c then (if cur = [] then split_from [] cs else cur # split_from [] cs)
      else split_from (cur @ [c]) cs)"

definition split_ws :: "string \<Rightarrow> string list" where
  \<comment> \<open>\<open>str.split()\<close> with no argument: the maximal runs of non-whitespace.\<close>
  "split_ws s = split_from [] s"

definition remove_char :: "char \<Rightarrow> string \<Rightarrow> string" where
  \<comment> \<open>\<open>text.replace(c, "")\<close> for a one-character \<open>c\<close>.\<close>
  "remove_char c s = filter (\<lambda>x. x \<noteq> c) s"

definition is_digit :: "char \<Rightarrow> bool" where
  \<comment> \<open>\<open>'0'\<close> .. \<open>'9'\<close>\<close>
  "is_digit c = (48 \<le> (of_char c :: nat) \<and> (of_char c :: nat) \<le> 57)"

definition digit_val :: "char \<Rightarrow> nat" where
  "digit_val c = of_char c - 48"

definition digit_char :: "nat \<Rightarrow> char" where
  "digit_char n = char_of (48 + n)"

fun str_of_nat :: "nat \<Rightarrow> string" where
  "str_of_nat n = (if n < 10 then [digit_char n] else str_of_nat (n div 10) @ [digit_char (n mod 10)])"

declare str_of_nat.simps [simp del]

definition str_of_int :: "int \<Rightarrow> string" where
  \<comment> \<open>\<open>str(i)\<close>, also what \<open>f"{i}"\<close> prints.\<close>
  "str_of_int i = (if i < 0 then CHR ''-'' # str_of_nat (nat (- i)) else str_of_nat (nat i))"

fun int_digits :: "nat \<Rightarrow> string \<Rightarrow> nat option" where
  \<comment> \<open>the digits after the first one; a single underscore may stand between two digits.\<close>
  "int_digits acc [] = Some acc"
| "int_digits acc (c # cs) =
     (if is_digit c then int_digits (10 * acc + digit_val c) cs
      else if c = CHR ''_'' then
        (case cs of
           [] \<Rightarrow> None
         | d # ds \<Rightarrow> if is_digit d then int_digits (10 * acc + digit_val d) ds else None)
      else None)"

definition int_unsigned :: "string \<Rightarrow> nat option" where
  "int_unsigned s =
     (case s of [] \<Rightarrow> None | c # cs \<Rightarrow> if is_digit c then int_digits (digit_val c) cs else None)"

definition int_of_str :: "string \<Rightarrow> pyerr + int" where
  \<comment> \<open>\<open>int(s)\<close> in base 10: surrounding whitespace, an optional sign, digits.\<close>
  "int_of_str s =
     (case strip s of
        [] \<Rightarrow> Inl ValueError
      | c # cs \<Rightarrow>
          if c = CHR ''-'' then
            (case int_unsigned cs of None \<Rightarrow> Inl ValueError | Some n \<Rightarrow> Inr (- int n))
          else if c = CHR ''+'' then
            (case int_unsigned cs of None \<Rightarrow> Inl ValueError | Some n \<Rightarrow> Inr (int n))
          else
            (case int_unsigned (c # cs) of None \<Rightarrow> Inl ValueError | Some n \<Rightarrow> Inr (int n)))"

subsection \<open>\<open>datetime.strptime(s, "%H:%M")\<close>\<close>

text \<open>
  The library turns the format into the regular expression
  \<^verbatim>\<open>(?P<H>2[0-3]|[0-1]\d|\d):(?P<M>[0-5]\d|\d)\<close>, matches it at the start of the text and
  raises ValueError when nothing matches or when text remains after the match. The result
  is the datetime 1900-01-01 H:M:00, here the number of seconds since 1900-01-01 00:00:00.
\<close>

type_synonym datetime = int

definition match_H :: "string \<Rightarrow> (nat \<times> string) list" where
  \<comment> \<open>the ways group H matches a prefix, in the order the alternatives are tried.\<close>
  "match_H s =
     (case s of
        a # b # r \<Rightarrow>
          (if a = CHR ''2'' \<and> is_digit b \<and> digit_val b \<le> 3 then [(20 + digit_val b, r)] else []) @
          (if (a = CHR ''0'' \<or> a = CHR ''1'') \<and> is_digit b then [(10 * digit_val a + digit_val b, r)] else [])
      | _ \<Rightarrow> []) @
     (case s of a # r \<Rightarrow> if is_digit a then [(digit_val a, r)] else [] | [] \<Rightarrow> [])"

definition match_M :: "string \<Rightarrow> (nat \<times> string) list" where
  "match_M s =
     (case s of
        a # b # r \<Rightarrow>
          (if is_digit a \<and> digit_val a \<le> 5 \<and> is_digit b then [(10 * digit_val a + digit_val b, r)] else [])
      | _ \<Rightarrow> []) @
     (case s of a # r \<Rightarrow> if is_digit a then [(digit_val a, r)] else [] | [] \<Rightarrow> [])"

definition match_HM :: "string \<Rightarrow> (nat \<times> nat \<times> string) list" where
  \<comment> \<open>the matches of the whole expression, by backtracking over the alternatives.\<close>
  "match_HM s =
     concat (map (\<lambda>(h, r).
       (case r of
          c # r' \<Rightarrow> if c = CHR '':'' then map (\<lambda>(m, rest). (h, m, rest)) (match_M r') else []
        | [] \<Rightarrow> [])) (match_H s))"

definition strptime_HM :: "string \<Rightarrow> pyerr + datetime" where
  "strptime_HM s =
     (case match_HM s of
        [] \<Rightarrow> Inl ValueError
      | (h, m, rest) # _ \<Rightarrow>
          if rest \<noteq> [] then Inl ValueError
          else Inr (3600 * int h + 60 * int m))"

subsection \<open>\<open>minutes_between\<close>\<close>

definition minutes_between :: "string \<Rightarrow> string \<Rightarrow> pyerr + int" where
  \<comment> \<open>a timedelta is its number of seconds; \<open>timedelta(days=1)\<close> is 86400.\<close>
  "minutes_between start_str end_str =
     (case strptime_HM start_str of
        Inl e \<Rightarrow> Inl e
      | Inr start \<Rightarrow>
          (case strptime_HM end_str of
             Inl e \<Rightarrow> Inl e
           | Inr end0 \<Rightarrow>
               (let end1 = (if end0 < start then end0 + 86400 else end0)
                in Inr ((end1 - start) div 60))))"

subsection \<open>Duration texts: \<open>_format_minutes\<close> and \<open>_parse_duration_text\<close>\<close>

definition dash :: string where
  \<comment> \<open>the placeholder, U+2014, in UTF-8\<close>
  "dash = [CHR 0xE2, CHR 0x80, CHR 0x94]"

definition format_minutes :: "int \<Rightarrow> string" where
  "format_minutes minutes =
     (let hours = minutes div 60; mins = minutes mod 60
      in if hours \<noteq> 0 then str_of_int hours @ ''h '' @ str_of_int mins @ ''m''
         else str_of_int mins @ ''m'')"

definition parse_duration_text :: "string \<Rightarrow> pyerr + int" where
  \<comment> \<open>\<open>parts[0]\<close> of an empty list raises IndexError, \<open>int\<close> of a non-number ValueError.\<close>
  "parse_duration_text text =
     (if text = dash \<or> text = [] then Inr 0
      else
        (let parts = split_ws (remove_char (CHR ''m'') (remove_char (CHR ''h'') text)) in
         (case (case parts of
                  [hours, mins] \<Rightarrow> Inr (hours, mins)
                | [] \<Rightarrow> Inl IndexError
                | p # _ \<Rightarrow> Inr (''0'', p)) of
            Inl e \<Rightarrow> Inl e
          | Inr (hours, mins) \<Rightarrow>
              (case int_of_str hours of
                 Inl e \<Rightarrow> Inl e
               | Inr h \<Rightarrow>
                   (case int_of_str mins of
                      Inl e \<Rightarrow> Inl e
                    | Inr m \<Rightarrow> Inr (h * 60 + m))))))"

subsection \<open>The store (db.py)\<close>

record StudyEntry =
  date_iso :: string
  start_time :: string
  end_time :: string
  category :: string
  duration_minutes :: int

text \<open>
  The table \<open>study_logs\<close> is the list of its rows in rowid order. \<open>sqlite_sequence\<close> is
  the largest rowid AUTOINCREMENT has given out. Every \<^verbatim>\<open>with _get_conn(...) as conn\<close> block
  that writes is one transaction, committed when the block is left; \<open>journal\<close> lists the
  table as it stood after each commit, oldest first: the states of the file that were
  durable, and visible to any other connection. The table exists: \<open>init_db\<close> runs when
  the window is built, before any other call. A failure of the storage engine itself is not
  part of the model, nor is a duration beyond the 64 bits of an SQLite INTEGER, which the
  form never computes (its durations lie between 0 and 1439).
\<close>

record log_row =
  row_id :: nat
  row_study_date :: string
  row_start_time :: string
  row_end_time :: string
  row_category :: string
  row_duration_minutes :: int
  row_created_at :: string

record database =
  study_logs :: "log_row list"
  sqlite_sequence :: nat
  journal :: "log_row list list"

definition commit :: "database \<Rightarrow> database" where
  "commit db = db\<lparr>journal := journal db @ [study_logs db]\<rparr>"

definition new_rowid :: "database \<Rightarrow> nat" where
  "new_rowid db = Suc (fold max (map row_id (study_logs db)) (sqlite_sequence db))"

definition insert_row :: "string \<Rightarrow> string \<times> string \<times> string \<times> string \<times> int \<Rightarrow> database \<Rightarrow> database" where
  \<comment> \<open>one INSERT; \<open>now\<close> is CURRENT_TIMESTAMP, the default of \<open>created_at\<close>.\<close>
  "insert_row now r db =
     (case r of (d, s, e, c, m) \<Rightarrow>
        db\<lparr>study_logs := study_logs db @
              [\<lparr>row_id = new_rowid db, row_study_date = d, row_start_time = s, row_end_time = e,
                row_category = c, row_duration_minutes = m, row_created_at = now\<rparr>],
           sqlite_sequence := new_rowid db\<rparr>)"

definition insert_entries :: "string \<Rightarrow> StudyEntry list \<Rightarrow> database \<Rightarrow> database" where
  "insert_entries now entries db =
     (let rows = map (\<lambda>e. (date_iso e, start_time e, end_time e, category e, duration_minutes e)) entries
      in if rows = [] then db
         else commit (fold (insert_row now) rows db))"

definition delete_entries_for_date :: "string \<Rightarrow> database \<Rightarrow> database" where
  "delete_entries_for_date d db =
     commit (db\<lparr>study_logs := filter (\<lambda>r. row_study_date r \<noteq> d) (study_logs db)\<rparr>)"

definition entry_of_row :: "log_row \<Rightarrow> StudyEntry" where
  \<comment> \<open>the \<open>StudyEntry\<close> built from a fetched row\<close>
  "entry_of_row r =
     \<lparr>date_iso = row_study_date r, start_time = row_start_time r, end_time = row_end_time r,
      category = row_category r, duration_minutes = row_duration_minutes r\<rparr>"

definition select_entries :: "string \<Rightarrow> log_row list \<Rightarrow> StudyEntry list" where
  \<comment> \<open>the SELECT: TEXT values compare byte by byte, which is the order of \<open>string\<close>; rows with
      equal \<open>start_time\<close> are left in rowid order (SQL itself fixes no order among them).\<close>
  "select_entries d tbl =
     map entry_of_row (sort_key row_start_time (filter (\<lambda>r. row_study_date r = d) tbl))"

definition fetch_entries :: "string \<Rightarrow> database \<Rightarrow> StudyEntry list" where
  "fetch_entries d db = select_entries d (study_logs db)"

subsection \<open>The form (main.py)\<close>

text \<open>
  A row of the table widget holds what \<open>table.item(row, column)\<close> and
  \<open>table.cellWidget(row, 2)\<close> return: \<open>None\<close> where no item is set (or the cell widget
  is not a combo box), else the text of the item (the current text of the combo box).
  \<open>date_picker\<close> is the picked date as \<open>toString("yyyy-MM-dd")\<close> prints it.
\<close>

record row =
  start_item :: "string option"
  end_item :: "string option"
  category_widget :: "string option"
  duration_item :: "string option"
  notes_item :: "string option"

record window =
  date_picker :: string
  table :: "row list"
  total_label :: string

fun total_of_rows :: "row list \<Rightarrow> int \<Rightarrow> pyerr + int" where
  \<comment> \<open>the loop of \<open>update_total_label\<close>\<close>
  "total_of_rows [] tot = Inr tot"
| "total_of_rows (r # rs) tot =
     (case duration_item r of
        None \<Rightarrow> total_of_rows rs tot
      | Some text \<Rightarrow>
          (case parse_duration_text text of
             Inl e \<Rightarrow> Inl e
           | Inr m \<Rightarrow> total_of_rows rs (tot + m)))"

text \<open>
  A method of the window returns the exception it raised, if any, and the window as it is
  left: what was written before the exception stays written.
\<close>

definition update_total_label :: "window \<Rightarrow> pyerr option \<times> window" where
  "update_total_label w =
     (case total_of_rows (table w) 0 of
        Inl e \<Rightarrow> (Some e, w)
      | Inr tot \<Rightarrow>
          (let hours = tot div 60; mins = tot mod 60
           in (None, w\<lparr>total_label := ''Total: '' @ str_of_int hours @ ''h '' @ str_of_int mins @ ''m''\<rparr>)))"

definition update_duration_for_row :: "window \<Rightarrow> nat \<Rightarrow> pyerr option \<times> window" where
  \<comment> \<open>\<open>table.item\<close> of a row that does not exist is \<open>None\<close>; \<open>minutes_between\<close> raises
      nothing but ValueError, which the \<open>except\<close> catches.\<close>
  "update_duration_for_row w i =
     (if i \<ge> length (table w) then (None, w)
      else
        (let r = table w ! i in
         (case (start_item r, end_item r, duration_item r) of
            (Some s, Some e, Some _) \<Rightarrow>
              (let start_text = strip s; end_text = strip e;
                   text = (case minutes_between start_text end_text of
                             Inr minutes \<Rightarrow> format_minutes minutes
                           | Inl _ \<Rightarrow> dash)
               in update_total_label (w\<lparr>table := (table w)[i := r\<lparr>duration_item := Some text\<rparr>]\<rparr>))
          | _ \<Rightarrow> (None, w))))"

definition row_error :: "nat \<Rightarrow> string" where
  \<comment> \<open>\<open>f"Row {row + 1}: invalid time format (use HH:MM)."\<close>\<close>
  "row_error i = ''Row '' @ str_of_int (int i + 1) @ '': invalid time format (use HH:MM).''"

fun collect_rows :: "string \<Rightarrow> nat \<Rightarrow> row list \<Rightarrow> StudyEntry list \<Rightarrow> string list \<Rightarrow> StudyEntry list \<times> string list" where
  \<comment> \<open>the loop of \<open>collect_entries\<close>, at row number \<open>i\<close> with the rows from there on.\<close>
  "collect_rows d i [] entries errors = (entries, errors)"
| "collect_rows d i (r # rs) entries errors =
     (case (start_item r, end_item r, category_widget r) of
        (Some s, Some e, Some current_text) \<Rightarrow>
          (let start = strip s; end0 = strip e;
               cat = (if current_text = [] then ''Other'' else current_text)
           in (case minutes_between start end0 of
                 Inl _ \<Rightarrow> collect_rows d (i + 1) rs entries (errors @ [row_error i])
               | Inr duration_min \<Rightarrow>
                   collect_rows d (i + 1) rs
                     (entries @ [\<lparr>date_iso = d, start_time = start, end_time = end0,
                                  category = cat, duration_minutes = duration_min\<rparr>])
                     errors))
      | _ \<Rightarrow> collect_rows d (i + 1) rs entries errors)"

definition collect_entries :: "window \<Rightarrow> StudyEntry list \<times> string list" where
  "collect_entries w = collect_rows (date_picker w) 0 (table w) [] []"

fun join_lines :: "string list \<Rightarrow> string" where
  \<comment> \<open>\<open>"\n".join(errors)\<close>\<close>
  "join_lines [] = []"
| "join_lines [x] = x"
| "join_lines (x # y # ys) = x @ [CHR 0x0A] @ join_lines (y # ys)"

datatype dialog = Warning string string | Information string string

definition save_entries :: "string \<Rightarrow> window \<Rightarrow> database \<Rightarrow> dialog \<times> database" where
  \<comment> \<open>the message box shown and the store afterwards; \<open>now\<close> is the time of the insert.\<close>
  "save_entries now w db =
     (case collect_entries w of (entries, errors) \<Rightarrow>
        if errors \<noteq> [] then (Warning ''Validation errors'' (join_lines errors), db)
        else if entries = [] then (Information ''Nothing to save'' ''No rows to save.'', db)
        else
          (let d = date_picker w;
               db1 = delete_entries_for_date d db;
               db2 = insert_entries now entries db1
           in (Information ''Saved'' ''Entries saved to database.'', db2)))"

subsection \<open>The time formats in the words of the specification\<close>

text \<open>
  \<open>is_HHMM\<close>: two digits, a colon, two digits, the hour below 24 and the minute below 60;
  \<open>clock_minutes\<close> is the minute of the day such a text names.
\<close>

definition is_HHMM :: "string \<Rightarrow> bool" where
  "is_HHMM s =
     (case s of
        [a, b, c, d, e] \<Rightarrow>
          is_digit a \<and> is_digit b \<and> c = CHR '':'' \<and> is_digit d \<and> is_digit e \<and>
          10 * digit_val a + digit_val b < 24 \<and> 10 * digit_val d + digit_val e < 60
      | _ \<Rightarrow> False)"

definition clock_minutes :: "string \<Rightarrow> int" where
  "clock_minutes s =
     (case s of
        [a, b, c, d, e] \<Rightarrow>
          60 * (10 * int (digit_val a) + int (digit_val b)) + (10 * int (digit_val d) + int (digit_val e))
      | _ \<Rightarrow> 0)"

text \<open>
  \<open>is_H_M\<close>: an hour field and a minute field around the first colon, each of one or two
  digits, the hour below 24 and the minute below 60; \<open>time_of_day\<close> is the minute of the
  day.
\<close>

definition time_fields :: "string \<Rightarrow> (string \<times> string) option" where
  "time_fields s =
     (case dropWhile (\<lambda>c. c \<noteq> CHR '':'') s of
        [] \<Rightarrow> None
      | _ # mm \<Rightarrow> Some (takeWhile (\<lambda>c. c \<noteq> CHR '':'') s, mm))"

definition digits_value :: "string \<Rightarrow> nat" where
  "digits_value f = foldl (\<lambda>acc c. 10 * acc + digit_val c) 0 f"

definition is_field :: "nat \<Rightarrow> string \<Rightarrow> bool" where
  "is_field bound f =
     ((length f = 1 \<or> length f = 2) \<and> list_all is_digit f \<and> digits_value f < bound)"

definition is_H_M :: "string \<Rightarrow> bool" where
  "is_H_M s =
     (case time_fields s of None \<Rightarrow> False | Some (hh, mm) \<Rightarrow> is_field 24 hh \<and> is_field 60 mm)"

definition time_of_day :: "string \<Rightarrow> int" where
  "time_of_day s =
     (case time_fields s of
        None \<Rightarrow> 0
      | Some (hh, mm) \<Rightarrow> 60 * int (digits_value hh) + int (digits_value mm))"


subsection \<open>Auxiliary notions\<close>

text \<open>
  What the duration cell of a row shows: no item at all, the placeholder, or a duration
  as \<open>_format_minutes\<close> prints it; and the minutes it stands for.
\<close>

datatype shown = No_item | Placeholder | Minutes nat

fun display :: "shown \<Rightarrow> string option" where
  "display No_item = None"
| "display Placeholder = Some dash"
| "display (Minutes n) = Some (format_minutes (int n))"

fun minutes_of :: "shown \<Rightarrow> int" where
  "minutes_of No_item = 0"
| "minutes_of Placeholder = 0"
| "minutes_of (Minutes n) = int n"

text \<open>
  A row is invalid when \<open>collect_entries\<close> reads it (its two time items and its combo box
  are there) and \<open>minutes_between\<close> raises on its stripped texts.
\<close>

definition row_invalid :: "row \<Rightarrow> bool" where
  "row_invalid r =
     (case (start_item r, end_item r, category_widget r) of
        (Some s, Some e, Some _) \<Rightarrow> isl (minutes_between (strip s) (strip e))
      | _ \<Rightarrow> False)"

definition invalid_rows :: "row list \<Rightarrow> nat list" where
  "invalid_rows rs = filter (\<lambda>i. row_invalid (rs ! i)) [0..<length rs]"

text \<open>The entry that \<open>collect_entries\<close> builds from a row, if it builds one.\<close>

definition row_entries :: "string \<Rightarrow> row \<Rightarrow> StudyEntry list" where
  "row_entries d r =
     (case (start_item r, end_item r, category_widget r) of
        (Some s, Some e, Some c) \<Rightarrow>
          (case minutes_between (strip s) (strip e) of
             Inr m \<Rightarrow> [\<lparr>date_iso = d, start_time = strip s, end_time = strip e,
                        category = (if c = [] then ''Other'' else c), duration_minutes = m\<rparr>]
           | Inl _ \<Rightarrow> [])
      | _ \<Rightarrow> [])"

text \<open>A text is plain when it has no whitespace and none of the letters h and m.\<close>

definition plain :: "string \<Rightarrow> bool" where
  "plain s = (\<forall>c \<in> set s. \<not> is_space c \<and> c \<noteq> CHR ''h'' \<and> c \<noteq> CHR ''m'')"

subsection \<open>Example data\<close>

text \<open>
  A store that has seen two saves, of one entry each, for 2024-01-01 and for 2024-01-02;
  entries for 2024-01-02 given with the later one first; entries whose hours are typed
  without a leading zero; a form with one row; a form whose second row has no time in it.
\<close>

definition example_day :: string where
  "example_day = ''2024-01-02''"

definition example_now :: string where
  "example_now = ''2024-01-02 18:00:00''"

definition other_row :: log_row where
  "other_row =
     \<lparr>row_id = 1, row_study_date = ''2024-01-01'', row_start_time = ''20:00'', row_end_time = ''21:00'',
      row_category = ''GenAI'', row_duration_minutes = 60, row_created_at = ''2024-01-01 21:05:00''\<rparr>"

definition old_row :: log_row where
  "old_row =
     \<lparr>row_id = 2, row_study_date = ''2024-01-02'', row_start_time = ''08:00'', row_end_time = ''08:30'',
      row_category = ''GenAI'', row_duration_minutes = 30, row_created_at = ''2024-01-02 09:00:00''\<rparr>"

definition example_db :: database where
  "example_db =
     \<lparr>study_logs = [other_row, old_row], sqlite_sequence = 2,
      journal = [[], [other_row], [other_row], [other_row, old_row]]\<rparr>"




definition row_0900_1030 :: row where
  "row_0900_1030 =
     \<lparr>start_item = Some ''09:00'', end_item = Some ''10:30'', category_widget = Some ''GenAI'',
      duration_item = Some dash, notes_item = Some []\<rparr>"

definition row_bad_1000 :: row where
  "row_bad_1000 =
     \<lparr>start_item = Some ''bad'', end_item = Some ''10:00'', category_widget = Some ''GenAI'',
      duration_item = Some dash, notes_item = Some []\<rparr>"




definition new_row :: log_row where
  "new_row =
     \<lparr>row_id = 3, row_study_date = ''2024-01-02'', row_start_time = ''09:00'', row_end_time = ''10:30'',
      row_category = ''GenAI'', row_duration_minutes = 90, row_created_at = ''2024-01-02 18:00:00''\<rparr>"

definition form_of :: "row list \<Rightarrow> window" where
  "form_of rs = \<lparr>date_picker = example_day, table = rs, total_label = ''Total: 0h 0m''\<rparr>"

section \<open>Properties\<close>


subsection \<open>Digits\<close>

lemma digit_val_le9: "is_digit c \<Longrightarrow> digit_val c \<le> 9"
  by (auto simp: is_digit_def digit_val_def)

lemma char_by_code: "(c = d) = ((of_char c :: nat) = of_char d)"
  by simp

lemma digit_is_0: "is_digit c \<Longrightarrow> (c = CHR ''0'') = (digit_val c = 0)"
  by (auto simp: is_digit_def digit_val_def char_by_code)

lemma digit_is_1: "is_digit c \<Longrightarrow> (c = CHR ''1'') = (digit_val c = 1)"
  by (auto simp: is_digit_def digit_val_def char_by_code)

lemma digit_is_2: "is_digit c \<Longrightarrow> (c = CHR ''2'') = (digit_val c = 2)"
  by (auto simp: is_digit_def digit_val_def char_by_code)

lemma not_digit_012: "\<not> is_digit c \<Longrightarrow> c \<noteq> CHR ''0'' \<and> c \<noteq> CHR ''1'' \<and> c \<noteq> CHR ''2''"
  by (auto simp: is_digit_def)

lemma colon_not_digit: "\<not> is_digit (CHR '':'')"
  by (simp add: is_digit_def)

subsection \<open>The two groups of the expression\<close>

lemma match_H_Nil: "match_H [] = []"
  by (simp add: match_H_def)

lemma match_H_not_digit: "\<not> is_digit a \<Longrightarrow> match_H (a # r) = []"
  by (cases r) (auto simp: match_H_def dest: not_digit_012)

lemma match_H_single: "is_digit a \<Longrightarrow> match_H [a] = [(digit_val a, [])]"
  by (simp add: match_H_def)

lemma match_H_one: "is_digit a \<Longrightarrow> \<not> is_digit b \<Longrightarrow> match_H (a # b # r) = [(digit_val a, b # r)]"
  by (simp add: match_H_def)

lemma match_H_two:
  assumes "is_digit a" "is_digit b"
  shows "match_H (a # b # r) =
     (if 10 * digit_val a + digit_val b < 24 then [(10 * digit_val a + digit_val b, r)] else [])
     @ [(digit_val a, b # r)]"
proof -
  have b9: "digit_val b \<le> 9" using assms by (simp add: digit_val_le9)
  consider "digit_val a = 0" | "digit_val a = 1" | "digit_val a = 2" | "digit_val a > 2" by linarith
  then show ?thesis
    using b9 by cases (simp_all add: match_H_def assms digit_is_0 digit_is_1 digit_is_2)
qed

lemma match_M_Nil: "match_M [] = []"
  by (simp add: match_M_def)

lemma match_M_not_digit: "\<not> is_digit a \<Longrightarrow> match_M (a # r) = []"
  by (cases r) (auto simp: match_M_def)

lemma match_M_single: "is_digit a \<Longrightarrow> match_M [a] = [(digit_val a, [])]"
  by (simp add: match_M_def)

lemma match_M_one: "is_digit a \<Longrightarrow> \<not> is_digit b \<Longrightarrow> match_M (a # b # r) = [(digit_val a, b # r)]"
  by (simp add: match_M_def)

lemma match_M_two:
  assumes "is_digit a" "is_digit b"
  shows "match_M (a # b # r) =
     (if 10 * digit_val a + digit_val b < 60 then [(10 * digit_val a + digit_val b, r)] else [])
     @ [(digit_val a, b # r)]"
proof -
  have "digit_val b \<le> 9" using assms by (simp add: digit_val_le9)
  then have "(digit_val a \<le> 5) = (10 * digit_val a + digit_val b < 60)" by linarith
  then show ?thesis by (simp add: match_M_def assms)
qed

subsection \<open>Texts in the form HH:MM\<close>

lemma is_HHMM_shape:
  assumes "is_HHMM s"
  obtains a b d e where "s = [a, b, CHR '':'', d, e]"
    and "is_digit a" and "is_digit b" and "is_digit d" and "is_digit e"
    and "10 * digit_val a + digit_val b < 24" and "10 * digit_val d + digit_val e < 60"
  using assms unfolding is_HHMM_def by (auto split: list.splits)

lemma strptime_HHMM:
  assumes "is_HHMM s"
  shows "strptime_HM s = Inr (60 * clock_minutes s)"
proof -
  from assms obtain a b d e where s: "s = [a, b, CHR '':'', d, e]"
    and dg: "is_digit a" "is_digit b" "is_digit d" "is_digit e"
    and h: "10 * digit_val a + digit_val b < 24" and m: "10 * digit_val d + digit_val e < 60"
    by (rule is_HHMM_shape)
  have H: "match_H s = [(10 * digit_val a + digit_val b, [CHR '':'', d, e]), (digit_val a, [b, CHR '':'', d, e])]"
    unfolding s using h by (simp add: match_H_two dg)
  have M: "match_M [d, e] = [(10 * digit_val d + digit_val e, []), (digit_val d, [e])]"
    using m by (simp add: match_M_two dg)
  have "match_HM s = [(10 * digit_val a + digit_val b, 10 * digit_val d + digit_val e, []),
                      (10 * digit_val a + digit_val b, digit_val d, [e])]"
    unfolding match_HM_def H using dg(2) by (auto simp: M colon_not_digit)
  then show ?thesis
    by (simp add: strptime_HM_def s clock_minutes_def)
qed

lemma clock_minutes_range:
  assumes "is_HHMM s"
  shows "0 \<le> clock_minutes s \<and> clock_minutes s < 1440"
proof -
  from assms obtain a b d e where s: "s = [a, b, CHR '':'', d, e]"
    and h: "10 * digit_val a + digit_val b < 24" and m: "10 * digit_val d + digit_val e < 60"
    by (rule is_HHMM_shape)
  show ?thesis unfolding s clock_minutes_def using h m by simp
qed

subsection \<open>Claims C4 and C5: the duration of a session\<close>

text \<open>
  Claim C4. For every pair of valid \<open>HH:MM\<close> times whose end is not before the start,
  \<open>minutes_between\<close> returns the end minus the start, in minutes.
\<close>

theorem minutes_between_same_day:
  assumes "is_HHMM s" and "is_HHMM e" and "clock_minutes s \<le> clock_minutes e"
  shows "minutes_between s e = Inr (clock_minutes e - clock_minutes s)"
  using assms(3) by (simp add: minutes_between_def strptime_HHMM [OF assms(1)] strptime_HHMM [OF assms(2)])

theorem minutes_between_same_day_witness:
  "is_HHMM ''09:00'' \<and> is_HHMM ''10:30'' \<and> clock_minutes ''09:00'' \<le> clock_minutes ''10:30''
   \<and> minutes_between ''09:00'' ''10:30'' = Inr 90"
proof -
  have s: "is_HHMM ''09:00''" by (simp add: is_HHMM_def is_digit_def digit_val_def)
  have e: "is_HHMM ''10:30''" by (simp add: is_HHMM_def is_digit_def digit_val_def)
  have cs: "clock_minutes ''09:00'' = 540" by (simp add: clock_minutes_def digit_val_def)
  have ce: "clock_minutes ''10:30'' = 630" by (simp add: clock_minutes_def digit_val_def)
  have le: "clock_minutes ''09:00'' \<le> clock_minutes ''10:30''" by (simp add: cs ce)
  from minutes_between_same_day [OF s e le] show ?thesis by (simp add: s e cs ce)
qed

text \<open>
  Claim C5. For every pair of valid \<open>HH:MM\<close> times whose end is before the start,
  \<open>minutes_between\<close> returns the end minus the start plus 1440 minutes: the session runs
  over midnight. From 23:30 to 00:15 it is 45 minutes.
\<close>

theorem minutes_between_overnight:
  assumes "is_HHMM s" and "is_HHMM e" and "clock_minutes e < clock_minutes s"
  shows "minutes_between s e = Inr (clock_minutes e - clock_minutes s + 1440)"
proof -
  have "(60 * clock_minutes e + 86400 - 60 * clock_minutes s) div 60 = clock_minutes e - clock_minutes s + 1440"
    by simp
  with assms(3) show ?thesis
    by (simp add: minutes_between_def strptime_HHMM [OF assms(1)] strptime_HHMM [OF assms(2)])
qed

theorem minutes_between_overnight_witness:
  "is_HHMM ''23:30'' \<and> is_HHMM ''00:15'' \<and> clock_minutes ''00:15'' < clock_minutes ''23:30''
   \<and> minutes_between ''23:30'' ''00:15'' = Inr 45"
proof -
  have s: "is_HHMM ''23:30''" by (simp add: is_HHMM_def is_digit_def digit_val_def)
  have e: "is_HHMM ''00:15''" by (simp add: is_HHMM_def is_digit_def digit_val_def)
  have cs: "clock_minutes ''23:30'' = 1410" by (simp add: clock_minutes_def digit_val_def)
  have ce: "clock_minutes ''00:15'' = 15" by (simp add: clock_minutes_def digit_val_def)
  have lt: "clock_minutes ''00:15'' < clock_minutes ''23:30''" by (simp add: cs ce)
  from minutes_between_overnight [OF s e lt] show ?thesis by (simp add: s e cs ce)
qed


subsection \<open>Printing and reading numbers\<close>

lemma digit_char_is_digit: "n < 10 \<Longrightarrow> is_digit (digit_char n)"
  by (simp add: is_digit_def digit_char_def)

lemma digit_val_digit_char: "n < 10 \<Longrightarrow> digit_val (digit_char n) = n"
  by (simp add: digit_val_def digit_char_def)

lemma str_of_nat_digits: "list_all is_digit (str_of_nat n)"
proof (induction n rule: str_of_nat.induct)
  case (1 n)
  show ?case
  proof (cases "n < 10")
    case True
    then show ?thesis by (subst str_of_nat.simps) (simp add: digit_char_is_digit)
  next
    case False
    with 1 show ?thesis by (subst str_of_nat.simps) (simp add: digit_char_is_digit)
  qed
qed

lemma str_of_nat_not_Nil: "str_of_nat n \<noteq> []"
  by (subst str_of_nat.simps) simp

lemma digits_value_snoc: "digits_value (xs @ [c]) = 10 * digits_value xs + digit_val c"
  by (simp add: digits_value_def)

lemma digits_value_str_of_nat: "digits_value (str_of_nat n) = n"
proof (induction n rule: str_of_nat.induct)
  case (1 n)
  show ?case
  proof (cases "n < 10")
    case True
    then show ?thesis
      by (subst str_of_nat.simps) (simp add: digits_value_def digit_val_digit_char)
  next
    case False
    with 1 have "digits_value (str_of_nat (n div 10)) = n div 10" by simp
    with False show ?thesis
      by (subst str_of_nat.simps) (simp add: digits_value_snoc digit_val_digit_char)
  qed
qed

lemma int_digits_all_digits:
  "list_all is_digit xs \<Longrightarrow> int_digits acc xs = Some (foldl (\<lambda>a c. 10 * a + digit_val c) acc xs)"
  by (induction xs arbitrary: acc) simp_all

lemma int_unsigned_all_digits:
  assumes "list_all is_digit xs" and "xs \<noteq> []"
  shows "int_unsigned xs = Some (digits_value xs)"
proof -
  from assms(2) obtain c cs where xs: "xs = c # cs" by (cases xs) auto
  with assms(1) show ?thesis
    by (simp add: int_unsigned_def int_digits_all_digits digits_value_def)
qed

lemma int_unsigned_str_of_nat: "int_unsigned (str_of_nat n) = Some n"
  by (simp add: int_unsigned_all_digits str_of_nat_digits str_of_nat_not_Nil digits_value_str_of_nat)

lemma digit_not_space: "is_digit c \<Longrightarrow> \<not> is_space c"
  by (auto simp: is_digit_def is_space_def)

lemma digit_not_sign: "is_digit c \<Longrightarrow> c \<noteq> CHR ''-'' \<and> c \<noteq> CHR ''+''"
  by (auto simp: is_digit_def)

lemma digit_not_unit: "is_digit c \<Longrightarrow> c \<noteq> CHR ''h'' \<and> c \<noteq> CHR ''m''"
  by (auto simp: is_digit_def)

lemma plain_Nil: "plain []"
  by (simp add: plain_def)

lemma plain_Cons: "plain (c # s) = ((\<not> is_space c \<and> c \<noteq> CHR ''h'' \<and> c \<noteq> CHR ''m'') \<and> plain s)"
  by (simp add: plain_def)

lemma plain_digits: "list_all is_digit s \<Longrightarrow> plain s"
  using digit_not_space digit_not_unit by (induction s) (simp_all add: plain_Nil plain_Cons)

lemma minus_not_space: "\<not> is_space (CHR ''-'')"
  by (simp add: is_space_def)

lemma plain_str_of_int: "plain (str_of_int i)"
  by (simp add: str_of_int_def plain_Cons minus_not_space plain_digits str_of_nat_digits)

lemma str_of_int_not_Nil: "str_of_int i \<noteq> []"
  by (simp add: str_of_int_def str_of_nat_not_Nil)

lemma strip_plain: "plain s \<Longrightarrow> strip s = s"
proof -
  assume p: "plain s"
  then have 1: "dropWhile is_space s = s"
    by (cases s) (auto simp: plain_def)
  from p have "dropWhile is_space (rev s) = rev s"
    by (cases "rev s") (auto simp: plain_def dest: arg_cong [where f = set])
  with 1 show ?thesis by (simp add: strip_def)
qed

lemma int_of_str_str_of_int: "int_of_str (str_of_int i) = Inr i"
proof (cases "i < 0")
  case True
  have "strip (str_of_int i) = CHR ''-'' # str_of_nat (nat (- i))"
    using strip_plain [OF plain_str_of_int, of i] True by (simp add: str_of_int_def)
  with True show ?thesis
    by (simp add: int_of_str_def int_unsigned_str_of_nat)
next
  case False
  obtain c cs where cs: "str_of_nat (nat i) = c # cs"
    using str_of_nat_not_Nil [of "nat i"] by (cases "str_of_nat (nat i)") auto
  have "is_digit c" using str_of_nat_digits [of "nat i"] by (simp add: cs)
  then have sign: "c \<noteq> CHR ''-''" "c \<noteq> CHR ''+''" by (simp_all add: digit_not_sign)
  have "strip (str_of_int i) = c # cs"
    using strip_plain [OF plain_str_of_int, of i] False by (simp add: str_of_int_def cs)
  moreover have "int_unsigned (c # cs) = Some (nat i)"
    using int_unsigned_str_of_nat [of "nat i"] by (simp add: cs)
  ultimately show ?thesis
    using False sign by (simp add: int_of_str_def)
qed

subsection \<open>Splitting a printed duration\<close>

lemma split_from_plain:
  "plain xs \<Longrightarrow> split_from cur xs = (if cur @ xs = [] then [] else [cur @ xs])"
  by (induction xs arbitrary: cur) (simp_all add: plain_Cons)

lemma split_from_plain_space:
  "plain xs \<Longrightarrow> is_space c \<Longrightarrow>
   split_from cur (xs @ c # ys) = (if cur @ xs = [] then split_from [] ys else (cur @ xs) # split_from [] ys)"
  by (induction xs arbitrary: cur) (simp_all add: plain_Cons)

lemma space_is_space: "is_space (CHR '' '')"
  by (simp add: is_space_def)

lemma remove_char_plain: "plain s \<Longrightarrow> remove_char (CHR ''m'') (remove_char (CHR ''h'') s) = s"
  by (induction s) (simp_all add: remove_char_def plain_Cons)

lemma split_hours_mins:
  "split_ws (remove_char (CHR ''m'') (remove_char (CHR ''h'') (str_of_int a @ ''h '' @ str_of_int b @ ''m'')))
   = [str_of_int a, str_of_int b]"
proof -
  have "remove_char (CHR ''m'') (remove_char (CHR ''h'') (str_of_int a @ ''h '' @ str_of_int b @ ''m''))
        = str_of_int a @ CHR '' '' # str_of_int b"
    using remove_char_plain [OF plain_str_of_int, of a] remove_char_plain [OF plain_str_of_int, of b]
    by (simp add: remove_char_def)
  then show ?thesis
    by (simp add: split_ws_def split_from_plain_space plain_str_of_int space_is_space
        split_from_plain str_of_int_not_Nil)
qed

lemma split_mins:
  "split_ws (remove_char (CHR ''m'') (remove_char (CHR ''h'') (str_of_int b @ ''m''))) = [str_of_int b]"
proof -
  have "remove_char (CHR ''m'') (remove_char (CHR ''h'') (str_of_int b @ ''m'')) = str_of_int b"
    using remove_char_plain [OF plain_str_of_int, of b] by (simp add: remove_char_def)
  then show ?thesis
    by (simp add: split_ws_def split_from_plain plain_str_of_int str_of_int_not_Nil)
qed

lemma format_minutes_last: "last (format_minutes m) = CHR ''m''"
  by (simp add: format_minutes_def Let_def)

lemma format_minutes_not_dash: "format_minutes m \<noteq> dash"
proof
  assume "format_minutes m = dash"
  then have "last (format_minutes m) = last dash" by simp
  then show False by (simp add: format_minutes_last dash_def)
qed

lemma format_minutes_not_Nil: "format_minutes m \<noteq> []"
  by (simp add: format_minutes_def Let_def)

lemma int_of_str_zero: "int_of_str ''0'' = Inr 0"
  by (simp add: int_of_str_def strip_def is_space_def int_unsigned_def is_digit_def digit_val_def)

lemma parse_format_minutes: "parse_duration_text (format_minutes m) = Inr m"
proof (cases "m div 60 = 0")
  case True
  have "60 * (m div 60) + m mod 60 = m" by simp
  with True have m: "m mod 60 = m" by simp
  have f: "format_minutes m = str_of_int m @ ''m''"
    using True m by (simp add: format_minutes_def)
  show ?thesis
    using format_minutes_not_dash [of m] format_minutes_not_Nil [of m]
    unfolding parse_duration_text_def f
    by (simp add: split_mins int_of_str_str_of_int int_of_str_zero del: append.simps)
next
  case False
  have f: "format_minutes m = str_of_int (m div 60) @ ''h '' @ str_of_int (m mod 60) @ ''m''"
    using False by (simp add: format_minutes_def)
  have "m div 60 * 60 + m mod 60 = m" by simp
  then show ?thesis
    using format_minutes_not_dash [of m] format_minutes_not_Nil [of m]
    unfolding parse_duration_text_def f
    by (simp add: split_hours_mins int_of_str_str_of_int del: append.simps)
qed

subsection \<open>Claim C10: printing a duration and reading it back\<close>


subsection \<open>Claim C7: the running total\<close>

lemma parse_dash: "parse_duration_text dash = Inr 0"
  by (simp add: parse_duration_text_def)

lemma total_of_rows_shown:
  "map duration_item rs = map display ds \<Longrightarrow>
   total_of_rows rs acc = Inr (acc + sum_list (map minutes_of ds))"
proof (induction rs arbitrary: ds acc)
  case Nil
  then show ?case by simp
next
  case (Cons r rs)
  from Cons.prems obtain x xs where ds: "ds = x # xs"
    and r: "duration_item r = display x" and rs: "map duration_item rs = map display xs"
    by (cases ds) auto
  show ?case
  proof (cases x)
    case No_item
    with r Cons.IH [OF rs] show ?thesis by (simp add: ds)
  next
    case Placeholder
    with r Cons.IH [OF rs] show ?thesis by (simp add: ds parse_dash)
  next
    case (Minutes n)
    with r Cons.IH [OF rs] show ?thesis by (simp add: ds parse_format_minutes add.assoc)
  qed
qed

text \<open>
  Claim C7. Whatever the form holds, the running total is the sum of the durations of the
  rows whose duration cell shows a duration, the rows that show the placeholder (or have
  no duration item) adding 0; the label reads \<open>Total: \<close> followed by the hours and the
  minutes of that sum. Rows showing 90 and 45 minutes give \<open>2h 15m\<close>.
\<close>

theorem running_total:
  assumes "map duration_item (table w) = map display ds"
  shows "update_total_label w =
     (None, w\<lparr>total_label :=
        ''Total: '' @ str_of_int (sum_list (map minutes_of ds) div 60) @ ''h '' @
        str_of_int (sum_list (map minutes_of ds) mod 60) @ ''m''\<rparr>)"
  by (simp add: update_total_label_def total_of_rows_shown [OF assms] Let_def)

theorem running_total_witness:
  "(let w = \<lparr>date_picker = ''2024-01-02'',
       table = [\<lparr>start_item = Some ''09:00'', end_item = Some ''10:30'', category_widget = Some ''GenAI'',
                  duration_item = Some ''1h 30m'', notes_item = Some ''''\<rparr>,
                \<lparr>start_item = Some ''23:30'', end_item = Some ''00:15'', category_widget = Some ''GenAI'',
                  duration_item = Some ''45m'', notes_item = Some ''''\<rparr>,
                \<lparr>start_item = Some '''', end_item = Some '''', category_widget = Some ''GenAI'',
                  duration_item = Some dash, notes_item = Some ''''\<rparr>],
       total_label = ''Total: 0h 0m''\<rparr>
    in map duration_item (table w) = map display [Minutes 90, Minutes 45, Placeholder]
       \<and> update_total_label w = (None, w\<lparr>total_label := ''Total: 2h 15m''\<rparr>))"
proof -
  have f90: "format_minutes 90 = ''1h 30m''" by code_simp
  have f45: "format_minutes 45 = ''45m''" by code_simp
  have s2: "str_of_int 2 = ''2''" by code_simp
  have s15: "str_of_int 15 = ''15''" by code_simp
  let ?w = "\<lparr>date_picker = ''2024-01-02'',
       table = [\<lparr>start_item = Some ''09:00'', end_item = Some ''10:30'', category_widget = Some ''GenAI'',
                  duration_item = Some ''1h 30m'', notes_item = Some ''''\<rparr>,
                \<lparr>start_item = Some ''23:30'', end_item = Some ''00:15'', category_widget = Some ''GenAI'',
                  duration_item = Some ''45m'', notes_item = Some ''''\<rparr>,
                \<lparr>start_item = Some '''', end_item = Some '''', category_widget = Some ''GenAI'',
                  duration_item = Some dash, notes_item = Some ''''\<rparr>],
       total_label = ''Total: 0h 0m''\<rparr>"
  have h: "map duration_item (table ?w) = map display [Minutes 90, Minutes 45, Placeholder]"
    by (simp add: f90 f45)
  from running_total [OF h] show ?thesis
    by (simp add: f90 f45 s2 s15)
qed

subsection \<open>The store\<close>

lemma study_logs_commit: "study_logs (commit db) = study_logs db"
  by (simp add: commit_def)

lemma journal_commit: "journal (commit db) = journal db @ [study_logs db]"
  by (simp add: commit_def)

lemma journal_insert_row: "journal (insert_row now r db) = journal db"
  by (cases r) (simp add: insert_row_def)

lemma journal_fold_insert_row: "journal (fold (insert_row now) rows db) = journal db"
  by (induction rows arbitrary: db) (simp_all add: journal_insert_row)

lemma entries_insert_row:
  "map entry_of_row (study_logs (insert_row now (date_iso e, start_time e, end_time e, category e, duration_minutes e) db))
   = map entry_of_row (study_logs db) @ [e]"
  by (simp add: insert_row_def entry_of_row_def)

lemma entries_fold_insert_row:
  "map entry_of_row (study_logs (fold (insert_row now)
     (map (\<lambda>e. (date_iso e, start_time e, end_time e, category e, duration_minutes e)) entries) db))
   = map entry_of_row (study_logs db) @ entries"
proof (induction entries arbitrary: db)
  case Nil
  show ?case by simp
next
  case (Cons e es)
  show ?case by (simp add: Cons.IH entries_insert_row)
qed

lemma entries_insert_entries:
  "map entry_of_row (study_logs (insert_entries now entries db)) = map entry_of_row (study_logs db) @ entries"
proof (cases "entries = []")
  case True
  then show ?thesis by (simp add: insert_entries_def)
next
  case False
  then show ?thesis
    by (simp add: insert_entries_def Let_def study_logs_commit entries_fold_insert_row)
qed

lemma study_logs_delete:
  "study_logs (delete_entries_for_date d db) = filter (\<lambda>r. row_study_date r \<noteq> d) (study_logs db)"
  by (simp add: delete_entries_for_date_def study_logs_commit)

lemma map_insort_key:
  "map f (insort_key (\<lambda>x. g (f x)) x xs) = insort_key g (f x) (map f xs)"
  by (induction xs) simp_all

lemma map_sort_key:
  "map f (sort_key (\<lambda>x. g (f x)) xs) = sort_key g (map f xs)"
  by (induction xs) (simp_all add: map_insort_key)

lemma start_time_entry_of_row: "start_time (entry_of_row r) = row_start_time r"
  by (simp add: entry_of_row_def)

lemma date_iso_entry_of_row: "date_iso (entry_of_row r) = row_study_date r"
  by (simp add: entry_of_row_def)

lemma select_entries_entries:
  "select_entries d tbl = sort_key start_time (filter (\<lambda>e. date_iso e = d) (map entry_of_row tbl))"
proof -
  have "map entry_of_row (sort_key row_start_time (filter (\<lambda>r. row_study_date r = d) tbl))
        = sort_key start_time (map entry_of_row (filter (\<lambda>r. row_study_date r = d) tbl))"
    using map_sort_key [of entry_of_row start_time] by (simp add: start_time_entry_of_row)
  also have "map entry_of_row (filter (\<lambda>r. row_study_date r = d) tbl)
        = filter (\<lambda>e. date_iso e = d) (map entry_of_row tbl)"
    by (simp add: filter_map o_def date_iso_entry_of_row)
  finally show ?thesis by (simp add: select_entries_def)
qed

lemma fetch_after_insert:
  "fetch_entries d (insert_entries now entries db)
   = sort_key start_time (filter (\<lambda>e. date_iso e = d) (map entry_of_row (study_logs db) @ entries))"
  by (simp add: fetch_entries_def select_entries_entries entries_insert_entries)

lemma no_entries_after_delete:
  "filter (\<lambda>e. date_iso e = d) (map entry_of_row (study_logs (delete_entries_for_date d db))) = []"
  by (simp add: study_logs_delete filter_map o_def date_iso_entry_of_row)

lemma fetch_after_replace:
  assumes "\<forall>e \<in> set entries. date_iso e = d"
  shows "fetch_entries d (insert_entries now entries (delete_entries_for_date d db)) = sort_key start_time entries"
proof -
  from assms have "filter (\<lambda>e. date_iso e = d) entries = entries" by simp
  then show ?thesis
    by (simp add: fetch_after_insert no_entries_after_delete)
qed

subsection \<open>Text order and clock order on HH:MM\<close>








subsection \<open>Claim C2: replacing a day and fetching it\<close>




subsection \<open>Claim C6: replacing a day with nothing\<close>

text \<open>
  \<open>save_entries\<close> itself never replaces a day with nothing: a form without entries makes
  no call to the store.
\<close>

lemma save_nothing:
  assumes "collect_entries w = ([], [])"
  shows "save_entries now w db = (Information ''Nothing to save'' ''No rows to save.'', db)"
  using assms by (simp add: save_entries_def)

text \<open>
  Claim C6. For every date \<open>d\<close>, replacing the records of \<open>d\<close> with the empty list
  still deletes (the rows of \<open>d\<close> are gone), inserts nothing (the store is left as the
  delete left it), and \<open>fetch_entries(d)\<close> then returns the empty list.
\<close>

theorem replace_with_nothing:
  "insert_entries now [] (delete_entries_for_date d db) = delete_entries_for_date d db
   \<and> study_logs (delete_entries_for_date d db) = filter (\<lambda>r. row_study_date r \<noteq> d) (study_logs db)
   \<and> fetch_entries d (insert_entries now [] (delete_entries_for_date d db)) = []"
proof -
  have 1: "insert_entries now [] (delete_entries_for_date d db) = delete_entries_for_date d db"
    by (simp add: insert_entries_def)
  have 3: "fetch_entries d (insert_entries now [] (delete_entries_for_date d db)) = []"
    using fetch_after_replace [of "[]" d now db] by simp
  show ?thesis using 1 3 by (simp add: study_logs_delete)
qed

subsection \<open>Collecting the rows of the form\<close>

lemma invalid_rows_Nil: "invalid_rows [] = []"
  by (simp add: invalid_rows_def)

lemma invalid_rows_Cons:
  "invalid_rows (r # rs) = (if row_invalid r then [0] else []) @ map Suc (invalid_rows rs)"
proof -
  have "[0..<length (r # rs)] = 0 # map Suc [0..<length rs]"
    by (simp add: upt_conv_Cons map_Suc_upt del: upt_Suc)
  then show ?thesis
    by (simp add: invalid_rows_def filter_map o_def)
qed

lemma collect_rows_step:
  "collect_rows d i (r # rs) entries errors =
     collect_rows d (i + 1) rs (entries @ row_entries d r)
       (errors @ (if row_invalid r then [row_error i] else []))"
  by (simp add: row_invalid_def row_entries_def Let_def split: option.split sum.split)

lemma collect_rows_errors:
  "snd (collect_rows d i rs entries errors) = errors @ map (\<lambda>k. row_error (i + k)) (invalid_rows rs)"
proof (induction rs arbitrary: i entries errors)
  case Nil
  show ?case by (simp add: invalid_rows_Nil)
next
  case (Cons r rs)
  show ?case
    unfolding collect_rows_step invalid_rows_Cons
    by (simp add: Cons.IH o_def)
qed

lemma row_entries_date: "e \<in> set (row_entries d r) \<Longrightarrow> date_iso e = d"
  by (auto simp: row_entries_def split: option.splits sum.splits)

lemma collect_rows_entries:
  "fst (collect_rows d i rs entries errors) = entries @ concat (map (row_entries d) rs)"
proof (induction rs arbitrary: i entries errors)
  case Nil
  show ?case by simp
next
  case (Cons r rs)
  show ?case
    unfolding collect_rows_step by (simp add: Cons.IH)
qed

lemma collect_entries_dates:
  "\<forall>e \<in> set (fst (collect_entries w)). date_iso e = date_picker w"
  by (auto simp: collect_entries_def collect_rows_entries dest: row_entries_date)

lemma collect_entries_errors:
  "snd (collect_entries w) = map row_error (invalid_rows (table w))"
  by (simp add: collect_entries_def collect_rows_errors)

subsection \<open>Claim C3: a row that does not parse blocks the save\<close>

text \<open>
  Claim C3. Whenever at least one row of the form has time fields that do not parse,
  \<open>save_entries\<close> makes no call to the store, which is left exactly as it was, and
  shows one warning that lists, in order, the offending rows by their numbers (counted
  from 1); nothing of the valid rows is saved.
\<close>

theorem save_blocked:
  assumes "invalid_rows (table w) \<noteq> []"
  shows "save_entries now w db =
     (Warning ''Validation errors'' (join_lines (map row_error (invalid_rows (table w)))), db)"
proof -
  obtain entries errors where c: "collect_entries w = (entries, errors)"
    by (cases "collect_entries w")
  with collect_entries_errors [of w] have e: "errors = map row_error (invalid_rows (table w))"
    by simp
  with assms have "errors \<noteq> []" by simp
  then show ?thesis by (simp add: save_entries_def c e)
qed

theorem save_blocked_witness:
  "invalid_rows (table (form_of [row_0900_1030, row_bad_1000])) = [1]
   \<and> save_entries example_now (form_of [row_0900_1030, row_bad_1000]) example_db =
       (Warning ''Validation errors'' ''Row 2: invalid time format (use HH:MM).'', example_db)"
proof -
  have i: "invalid_rows (table (form_of [row_0900_1030, row_bad_1000])) = [1]"
    by code_simp
  then have h: "invalid_rows (table (form_of [row_0900_1030, row_bad_1000])) \<noteq> []"
    by simp
  have "row_error 1 = ''Row 2: invalid time format (use HH:MM).''"
    by code_simp
  then have m: "row_error (Suc 0) = ''Row 2: invalid time format (use HH:MM).''"
    by simp
  from save_blocked [OF h, of example_now example_db] show ?thesis
    by (simp add: i m)
qed

subsection \<open>Claim C1: the save is two transactions\<close>

lemma journal_insert_entries:
  "entries \<noteq> [] \<Longrightarrow>
   journal (insert_entries now entries db) = journal db @ [study_logs (insert_entries now entries db)]"
  by (simp add: insert_entries_def Let_def journal_commit study_logs_commit journal_fold_insert_row)

lemma journal_delete:
  "journal (delete_entries_for_date d db)
   = journal db @ [filter (\<lambda>r. row_study_date r \<noteq> d) (study_logs db)]"
  by (simp add: delete_entries_for_date_def journal_commit)

lemma select_after_delete:
  "select_entries d (filter (\<lambda>r. row_study_date r \<noteq> d) tbl) = []"
  by (simp add: select_entries_def)

lemma save_entries_saved:
  assumes "collect_entries w = (entries, [])" and "entries \<noteq> []"
  shows "save_entries now w db =
     (Information ''Saved'' ''Entries saved to database.'',
      insert_entries now entries (delete_entries_for_date (date_picker w) db))"
  using assms by (simp add: save_entries_def Let_def)

text \<open>
  Claim C1, as the code has it. When the form validates and has at least one entry, the
  save replaces the records of the picked date in two transactions, committed one after
  the other: the delete, then the insert. The state committed in between holds no entry
  for the date (the old ones deleted, the new ones not yet inserted); the state committed
  last holds exactly the new entries for the date.
\<close>

theorem save_commits_twice:
  assumes "collect_entries w = (entries, [])" and "entries \<noteq> []"
  shows "journal (snd (save_entries now w db)) =
       journal db @ [filter (\<lambda>r. row_study_date r \<noteq> date_picker w) (study_logs db),
                     study_logs (snd (save_entries now w db))]
    \<and> select_entries (date_picker w) (filter (\<lambda>r. row_study_date r \<noteq> date_picker w) (study_logs db)) = []
    \<and> mset (fetch_entries (date_picker w) (snd (save_entries now w db))) = mset entries"
proof -
  have d: "\<forall>e \<in> set entries. date_iso e = date_picker w"
    using collect_entries_dates [of w] assms(1) by simp
  have s: "snd (save_entries now w db)
      = insert_entries now entries (delete_entries_for_date (date_picker w) db)"
    by (simp add: save_entries_saved [OF assms])
  have 1: "journal (snd (save_entries now w db)) =
       journal db @ [filter (\<lambda>r. row_study_date r \<noteq> date_picker w) (study_logs db),
                     study_logs (snd (save_entries now w db))]"
    unfolding s by (simp add: journal_insert_entries [OF assms(2)] journal_delete)
  have 3: "mset (fetch_entries (date_picker w) (snd (save_entries now w db))) = mset entries"
    unfolding s by (simp add: fetch_after_replace [OF d])
  show ?thesis using 1 3 by (simp add: select_after_delete)
qed

theorem save_commits_twice_witness:
  "collect_entries (form_of [row_0900_1030]) = ([entry_of_row new_row], [])
   \<and> [entry_of_row new_row] \<noteq> []
   \<and> journal (snd (save_entries example_now (form_of [row_0900_1030]) example_db)) =
       journal example_db @ [[other_row], [other_row, new_row]]
   \<and> mset (fetch_entries example_day (snd (save_entries example_now (form_of [row_0900_1030]) example_db)))
       = mset [entry_of_row new_row]"
proof -
  have h1: "collect_entries (form_of [row_0900_1030]) = ([entry_of_row new_row], [])"
    by code_simp
  have h2: "[entry_of_row new_row] \<noteq> []" by simp
  have dp: "date_picker (form_of [row_0900_1030]) = example_day"
    by (simp add: form_of_def)
  have f: "filter (\<lambda>r. row_study_date r \<noteq> example_day) (study_logs example_db) = [other_row]"
    by code_simp
  have l: "study_logs (snd (save_entries example_now (form_of [row_0900_1030]) example_db)) = [other_row, new_row]"
    by code_simp
  from save_commits_twice [OF h1 h2, of example_now example_db] show ?thesis
    by (simp add: h1 dp f l)
qed

text \<open>
  The replacement is not a single transaction: saving one row over a day that holds one
  entry commits, between the state before and the state after, a state of the table in
  which that day has neither its old entry nor its new one.
\<close>

theorem save_single_transaction_counterexample:
  "journal (snd (save_entries example_now (form_of [row_0900_1030]) example_db))
     = journal example_db @ [[other_row], [other_row, new_row]]
   \<and> fetch_entries example_day example_db = [entry_of_row old_row]
   \<and> fetch_entries example_day (snd (save_entries example_now (form_of [row_0900_1030]) example_db))
       = [entry_of_row new_row]
   \<and> select_entries example_day [other_row] = []
   \<and> select_entries example_day [other_row] \<noteq> [entry_of_row old_row]
   \<and> select_entries example_day [other_row] \<noteq> [entry_of_row new_row]"
  by code_simp

subsection \<open>Claim C9: one row from 09:00 to 10:30\<close>

lemma strip_0900: "strip ''09:00'' = ''09:00''"
  by code_simp

lemma strip_1030: "strip ''10:30'' = ''10:30''"
  by code_simp

lemma minutes_0900_1030: "minutes_between ''09:00'' ''10:30'' = Inr 90"
  by code_simp

lemma format_90: "format_minutes 90 = ''1h 30m''"
  by code_simp

lemma parse_1h30m: "parse_duration_text ''1h 30m'' = Inr 90"
  using parse_format_minutes [of 90] by (simp add: format_90)

text \<open>
  Claim C9. For a form with one row from 09:00 to 10:30, whatever the date, the category
  and the store: saving stores an entry whose \<open>duration_minutes\<close> is 90, and the duration
  cell of the row shows \<open>1h 30m\<close>.
\<close>

theorem one_row_0900_1030:
  "fetch_entries d (snd (save_entries now
       \<lparr>date_picker = d,
        table = [\<lparr>start_item = Some ''09:00'', end_item = Some ''10:30'', category_widget = Some c,
                  duration_item = Some t, notes_item = n\<rparr>],
        total_label = l\<rparr> db))
     = [\<lparr>date_iso = d, start_time = ''09:00'', end_time = ''10:30'',
         category = (if c = [] then ''Other'' else c), duration_minutes = 90\<rparr>]
   \<and> update_duration_for_row
       \<lparr>date_picker = d,
        table = [\<lparr>start_item = Some ''09:00'', end_item = Some ''10:30'', category_widget = Some c,
                  duration_item = Some t, notes_item = n\<rparr>],
        total_label = l\<rparr> 0
     = (None,
        \<lparr>date_picker = d,
         table = [\<lparr>start_item = Some ''09:00'', end_item = Some ''10:30'', category_widget = Some c,
                   duration_item = Some ''1h 30m'', notes_item = n\<rparr>],
         total_label = ''Total: 1h 30m''\<rparr>)"
proof -
  let ?w = "\<lparr>date_picker = d,
        table = [\<lparr>start_item = Some ''09:00'', end_item = Some ''10:30'', category_widget = Some c,
                  duration_item = Some t, notes_item = n\<rparr>],
        total_label = l\<rparr>"
  let ?e = "\<lparr>date_iso = d, start_time = ''09:00'', end_time = ''10:30'',
         category = (if c = [] then ''Other'' else c), duration_minutes = 90\<rparr>"
  have c: "collect_entries ?w = ([?e], [])"
    by (simp add: collect_entries_def strip_0900 strip_1030 minutes_0900_1030)
  have "snd (save_entries now ?w db) = insert_entries now [?e] (delete_entries_for_date d db)"
    using save_entries_saved [OF c, of now db] by simp
  then have 1: "fetch_entries d (snd (save_entries now ?w db)) = [?e]"
    by (simp add: fetch_after_replace)
  have s1: "str_of_int 1 = ''1''" by code_simp
  have s30: "str_of_int 30 = ''30''" by code_simp
  have 2: "update_duration_for_row ?w 0 = (None,
        \<lparr>date_picker = d,
         table = [\<lparr>start_item = Some ''09:00'', end_item = Some ''10:30'', category_widget = Some c,
                   duration_item = Some ''1h 30m'', notes_item = n\<rparr>],
         total_label = ''Total: 1h 30m''\<rparr>)"
    by (simp add: update_duration_for_row_def update_total_label_def strip_0900 strip_1030
        minutes_0900_1030 format_90 parse_1h30m s1 s30 Let_def)
  show ?thesis using 1 2 by simp
qed

subsection \<open>What the expression accepts\<close>

lemma digits_value_1: "digits_value [a] = digit_val a"
  by (simp add: digits_value_def)

lemma digits_value_2: "digits_value [a, b] = 10 * digit_val a + digit_val b"
  by (simp add: digits_value_def)

lemma is_field_1: "is_field n [a] = (is_digit a \<and> digit_val a < n)"
  by (auto simp: is_field_def digits_value_1)

lemma is_field_2: "is_field n [a, b] = (is_digit a \<and> is_digit b \<and> 10 * digit_val a + digit_val b < n)"
  by (auto simp: is_field_def digits_value_2)

lemma is_field_cases:
  assumes "is_field n f"
  obtains a where "f = [a]" | a b where "f = [a, b]"
proof -
  from assms have "length f = 1 \<or> length f = 2" by (simp add: is_field_def)
  then show thesis
  proof
    assume "length f = 1"
    then obtain a where "f = [a]" by (cases f) auto
    then show thesis by (rule that(1))
  next
    assume "length f = 2"
    then obtain a b where "f = [a, b]" by (cases f; cases "tl f") auto
    then show thesis by (rule that(2))
  qed
qed

lemma is_field_digit_1: "is_digit a \<Longrightarrow> 10 \<le> n \<Longrightarrow> is_field n [a]"
  using digit_val_le9 [of a] by (simp add: is_field_1)

lemma match_H_sound:
  assumes "(h, r) \<in> set (match_H s)"
  shows "\<exists>hh. s = hh @ r \<and> is_field 24 hh \<and> h = digits_value hh"
proof (cases s)
  case Nil
  with assms show ?thesis by (simp add: match_H_Nil)
next
  case s: (Cons a s')
  show ?thesis
  proof (cases "is_digit a")
    case False
    with assms s show ?thesis by (simp add: match_H_not_digit)
  next
    case da: True
    have one: "h = digit_val a \<Longrightarrow> r = s' \<Longrightarrow> ?thesis"
      using s da by (intro exI [of _ "[a]"]) (simp add: is_field_digit_1 digits_value_1)
    show ?thesis
    proof (cases s')
      case Nil
      with assms s da have "h = digit_val a" "r = s'" by (simp_all add: match_H_single)
      then show ?thesis by (rule one)
    next
      case s': (Cons b r')
      show ?thesis
      proof (cases "is_digit b")
        case False
        with assms s s' da have "h = digit_val a" "r = s'" by (simp_all add: match_H_one)
        then show ?thesis by (rule one)
      next
        case db: True
        from assms s s' da db
        consider "h = 10 * digit_val a + digit_val b" "r = r'" "10 * digit_val a + digit_val b < 24"
          | "h = digit_val a" "r = s'"
          by (auto simp: match_H_two split: if_splits)
        then show ?thesis
        proof cases
          case 1
          with s s' da db show ?thesis
            by (intro exI [of _ "[a, b]"]) (simp add: is_field_2 digits_value_2)
        next
          case 2
          then show ?thesis by (rule one)
        qed
      qed
    qed
  qed
qed

lemma match_M_sound:
  assumes "(m, r) \<in> set (match_M s)"
  shows "\<exists>mm. s = mm @ r \<and> is_field 60 mm \<and> m = digits_value mm"
proof (cases s)
  case Nil
  with assms show ?thesis by (simp add: match_M_Nil)
next
  case s: (Cons a s')
  show ?thesis
  proof (cases "is_digit a")
    case False
    with assms s show ?thesis by (simp add: match_M_not_digit)
  next
    case da: True
    have one: "m = digit_val a \<Longrightarrow> r = s' \<Longrightarrow> ?thesis"
      using s da by (intro exI [of _ "[a]"]) (simp add: is_field_digit_1 digits_value_1)
    show ?thesis
    proof (cases s')
      case Nil
      with assms s da have "m = digit_val a" "r = s'" by (simp_all add: match_M_single)
      then show ?thesis by (rule one)
    next
      case s': (Cons b r')
      show ?thesis
      proof (cases "is_digit b")
        case False
        with assms s s' da have "m = digit_val a" "r = s'" by (simp_all add: match_M_one)
        then show ?thesis by (rule one)
      next
        case db: True
        from assms s s' da db
        consider "m = 10 * digit_val a + digit_val b" "r = r'" "10 * digit_val a + digit_val b < 60"
          | "m = digit_val a" "r = s'"
          by (auto simp: match_M_two split: if_splits)
        then show ?thesis
        proof cases
          case 1
          with s s' da db show ?thesis
            by (intro exI [of _ "[a, b]"]) (simp add: is_field_2 digits_value_2)
        next
          case 2
          then show ?thesis by (rule one)
        qed
      qed
    qed
  qed
qed

lemma match_HM_sound:
  assumes "(h, m, rest) \<in> set (match_HM s)"
  shows "\<exists>hh mm. s = hh @ CHR '':'' # mm @ rest \<and> is_field 24 hh \<and> is_field 60 mm
           \<and> h = digits_value hh \<and> m = digits_value mm"
proof -
  from assms obtain r where hr: "(h, r) \<in> set (match_H s)"
    and in_r: "(h, m, rest) \<in> set (case r of
          c # r' \<Rightarrow> if c = CHR '':'' then map (\<lambda>(m, rest). (h, m, rest)) (match_M r') else []
        | [] \<Rightarrow> [])"
    by (auto simp: match_HM_def)
  from in_r obtain r' where r: "r = CHR '':'' # r'" and mr: "(m, rest) \<in> set (match_M r')"
    by (cases r) (auto split: if_splits)
  from match_H_sound [OF hr] obtain hh where hh: "s = hh @ r" "is_field 24 hh" "h = digits_value hh"
    by blast
  from match_M_sound [OF mr] obtain mm where mm: "r' = mm @ rest" "is_field 60 mm" "m = digits_value mm"
    by blast
  from hh mm r show ?thesis by auto
qed

lemma is_field_no_colon: "is_field n f \<Longrightarrow> \<forall>c \<in> set f. c \<noteq> CHR '':''"
  using colon_not_digit by (auto simp: is_field_def list_all_iff)

lemma time_fields_append:
  assumes "\<forall>c \<in> set hh. c \<noteq> CHR '':''"
  shows "time_fields (hh @ CHR '':'' # mm) = Some (hh, mm)"
proof -
  have "takeWhile (\<lambda>c. c \<noteq> CHR '':'') (hh @ CHR '':'' # mm) = hh"
    using assms by (simp add: takeWhile_append2)
  moreover have "dropWhile (\<lambda>c. c \<noteq> CHR '':'') (hh @ CHR '':'' # mm) = CHR '':'' # mm"
    using assms by (simp add: dropWhile_append2)
  ultimately show ?thesis by (simp add: time_fields_def)
qed

lemma time_fields_Some:
  assumes "time_fields s = Some (hh, mm)"
  shows "s = hh @ CHR '':'' # mm"
proof -
  from assms obtain c where d: "dropWhile (\<lambda>c. c \<noteq> CHR '':'') s = c # mm"
    and t: "takeWhile (\<lambda>c. c \<noteq> CHR '':'') s = hh"
    by (auto simp: time_fields_def split: list.splits)
  from d have "c = CHR '':''" using hd_dropWhile [of "\<lambda>c. c \<noteq> CHR '':''" s] by auto
  with d t takeWhile_dropWhile_id [of "\<lambda>c. c \<noteq> CHR '':''" s] show ?thesis by simp
qed

lemma strptime_sound:
  assumes "strptime_HM s = Inr t"
  shows "is_H_M s \<and> t = 60 * time_of_day s"
proof -
  from assms obtain h m ms where ms: "match_HM s = (h, m, []) # ms" and t: "t = 3600 * int h + 60 * int m"
    by (auto simp: strptime_HM_def split: list.splits if_splits)
  then have "(h, m, []) \<in> set (match_HM s)" by simp
  from match_HM_sound [OF this] obtain hh mm where s: "s = hh @ CHR '':'' # mm"
    and f: "is_field 24 hh" "is_field 60 mm" and v: "h = digits_value hh" "m = digits_value mm"
    by auto
  have "time_fields s = Some (hh, mm)"
    unfolding s by (rule time_fields_append [OF is_field_no_colon [OF f(1)]])
  with f v t show ?thesis by (simp add: is_H_M_def time_of_day_def)
qed

lemma match_HM_field:
  assumes "is_field 24 hh" and "is_field 60 mm"
  shows "\<exists>ms. match_HM (hh @ CHR '':'' # mm) = (digits_value hh, digits_value mm, []) # ms"
proof -
  have M: "\<exists>ms. match_M mm = (digits_value mm, []) # ms"
  proof (rule is_field_cases [OF assms(2)])
    fix a assume "mm = [a]"
    with assms(2) show ?thesis by (simp add: is_field_1 match_M_single digits_value_1)
  next
    fix a b assume "mm = [a, b]"
    with assms(2) show ?thesis by (simp add: is_field_2 match_M_two digits_value_2)
  qed
  then obtain ms where ms: "match_M mm = (digits_value mm, []) # ms" by blast
  show ?thesis
  proof (rule is_field_cases [OF assms(1)])
    fix a assume hh: "hh = [a]"
    with assms(1) have "is_digit a" by (simp add: is_field_1)
    then have "match_H (hh @ CHR '':'' # mm) = [(digits_value hh, CHR '':'' # mm)]"
      by (simp add: hh match_H_one colon_not_digit digits_value_1)
    then show ?thesis by (simp add: match_HM_def ms)
  next
    fix a b assume hh: "hh = [a, b]"
    with assms(1) have d: "is_digit a" "is_digit b" "10 * digit_val a + digit_val b < 24"
      by (simp_all add: is_field_2)
    then have "match_H (hh @ CHR '':'' # mm) =
        [(digits_value hh, CHR '':'' # mm), (digit_val a, b # CHR '':'' # mm)]"
      by (simp add: hh match_H_two digits_value_2)
    then show ?thesis by (simp add: match_HM_def ms)
  qed
qed

lemma strptime_complete:
  assumes "is_H_M s"
  shows "strptime_HM s = Inr (60 * time_of_day s)"
proof -
  from assms obtain hh mm where tf: "time_fields s = Some (hh, mm)"
    and f: "is_field 24 hh" "is_field 60 mm"
    by (auto simp: is_H_M_def split: option.splits)
  from time_fields_Some [OF tf] have s: "s = hh @ CHR '':'' # mm" .
  from match_HM_field [OF f] obtain ms
    where "match_HM s = (digits_value hh, digits_value mm, []) # ms"
    unfolding s by blast
  then show ?thesis by (simp add: strptime_HM_def time_of_day_def tf)
qed

lemma strptime_error: "strptime_HM s = Inl e \<Longrightarrow> e = ValueError"
  by (auto simp: strptime_HM_def split: list.splits if_splits)

lemma strptime_is_H_M:
  "strptime_HM s = (if is_H_M s then Inr (60 * time_of_day s) else Inl ValueError)"
proof (cases "is_H_M s")
  case True
  then show ?thesis by (simp add: strptime_complete)
next
  case False
  show ?thesis
  proof (cases "strptime_HM s")
    case (Inl e)
    with strptime_error [OF Inl] False show ?thesis by simp
  next
    case (Inr t)
    with strptime_sound [OF Inr] False show ?thesis by simp
  qed
qed

lemma minutes_between_is_H_M:
  "minutes_between s e =
     (if is_H_M s \<and> is_H_M e
      then Inr (if time_of_day e < time_of_day s then time_of_day e - time_of_day s + 1440
                else time_of_day e - time_of_day s)
      else Inl ValueError)"
proof -
  have "(60 * time_of_day e + 86400 - 60 * time_of_day s) div 60 = time_of_day e - time_of_day s + 1440"
    by simp
  then show ?thesis
    by (simp add: minutes_between_def strptime_is_H_M)
qed



lemma minutes_between_error: "minutes_between s e = Inl x \<Longrightarrow> x = ValueError"
  by (simp add: minutes_between_is_H_M split: if_splits)

subsection \<open>Claim C8: when the duration of a row is shown\<close>






end
